theory Spec2Isabelle
  imports Main "HOL-Library.Char_ord" "HOL-Library.List_Lexorder"
begin

section \<open>The CSV mapping verifier, \<^verbatim>\<open>workouts/verify_csv_mapping.py\<close>\<close>

text \<open>
  The script reads two files, builds an index from normalised exercise names to ids,
  scans the rows of a CSV export and prints a report. The model takes both files as
  already decoded and parsed: the mapping file as the sequence of \<open>(id, object)\<close> pairs
  that \<^verbatim>\<open>exercises_data.items()\<close> yields, the CSV file as the rows that \<^verbatim>\<open>csv.reader\<close>
  yields. Opening, decoding and parsing are outside the model, and so are the
  exceptions they raise. The mapping file is taken to hold a JSON object whose values
  are objects, as the specification describes it.
\<close>

subsection \<open>Strings\<close>

text \<open>
  A Python \<^verbatim>\<open>str\<close> is a sequence of code points. The model covers the code points below
  256: a \<^typ>\<open>char\<close> is the code point \<open>of_char c\<close>. On this range \<^verbatim>\<open>str.lower\<close> maps
  \<^verbatim>\<open>A-Z\<close> and the upper-case letters \<^verbatim>\<open>U+00C0..U+00DE\<close> (without the multiplication sign
  \<^verbatim>\<open>U+00D7\<close>) to the letter 32 places up, and \<^verbatim>\<open>str.strip()\<close> removes the characters
  \<^verbatim>\<open>U+0009..U+000D\<close>, \<^verbatim>\<open>U+001C..U+0020\<close>, \<^verbatim>\<open>U+0085\<close> and \<^verbatim>\<open>U+00A0\<close> from both ends.
  Strings compare as Python compares them: lexicographically by code point.
\<close>

definition is_space :: "char \<Rightarrow> bool" where
  "is_space c =
     (let n = (of_char c :: nat)
      in (9 \<le> n \<and> n \<le> 13) \<or> (28 \<le> n \<and> n \<le> 32) \<or> n = 133 \<or> n = 160)"

definition lower_char :: "char \<Rightarrow> char" where
  "lower_char c =
     (let n = (of_char c :: nat)
      in if (65 \<le> n \<and> n \<le> 90) \<or> (192 \<le> n \<and> n \<le> 222 \<and> n \<noteq> 215)
         then char_of (n + 32) else c)"

definition lower :: "string \<Rightarrow> string" where
  "lower s = map lower_char s"

definition strip :: "string \<Rightarrow> string" where
  "strip s = rev (dropWhile is_space (rev (dropWhile is_space s)))"

subsection \<open>Errors\<close>

datatype error = KeyError | AttributeError | ZeroDivisionError

subsection \<open>The mapping file and the name index (lines 19 to 31)\<close>

text \<open>
  A field of an exercise object is a string or some other JSON value. Of a value that
  is not a string the script only ever uses its truth value (\<^verbatim>\<open>null\<close>, \<^verbatim>\<open>false\<close>, zero and
  the empty containers are false) and the fact that it has no method \<^verbatim>\<open>lower\<close>.
  An exercise object is a dictionary from field names to values.
\<close>

datatype jvalue = JStr string | JOther bool

type_synonym jobject = "string \<rightharpoonup> jvalue"

type_synonym name_index = "string \<rightharpoonup> string"

text \<open>
  The body of the loop of line 24. \<^verbatim>\<open>data['name']\<close> raises \<^verbatim>\<open>KeyError\<close> when the field is
  missing, and \<^verbatim>\<open>.lower()\<close> raises \<^verbatim>\<open>AttributeError\<close> on a value that is not a string.
  \<^verbatim>\<open>data.get('exportName')\<close> is false when the field is missing, when it is the empty
  string and when it is another false value.
\<close>

definition index_record :: "name_index \<Rightarrow> string \<times> jobject \<Rightarrow> error + name_index" where
  "index_record name_to_id r =
     (case r of (ex_id, data) \<Rightarrow>
        (case data ''name'' of
           None \<Rightarrow> Inl KeyError
         | Some (JOther t) \<Rightarrow> Inl AttributeError
         | Some (JStr n) \<Rightarrow>
             (let name = strip (lower n);
                  name_to_id1 = name_to_id(name \<mapsto> ex_id)
              in (case data ''exportName'' of
                    None \<Rightarrow> Inr name_to_id1
                  | Some (JOther t) \<Rightarrow> if t then Inl AttributeError else Inr name_to_id1
                  | Some (JStr e) \<Rightarrow>
                      if e \<noteq> [] \<and> lower e \<noteq> name
                      then Inr (name_to_id1(strip (lower e) \<mapsto> ex_id))
                      else Inr name_to_id1))))"

fun build_index :: "name_index \<Rightarrow> (string \<times> jobject) list \<Rightarrow> error + name_index" where
  "build_index name_to_id [] = Inr name_to_id"
| "build_index name_to_id (r # rs) =
     (case index_record name_to_id r of
        Inl e \<Rightarrow> Inl e
      | Inr name_to_id1 \<Rightarrow> build_index name_to_id1 rs)"

definition load_index :: "(string \<times> jobject) list \<Rightarrow> error + name_index" where
  "load_index exercises_data = build_index Map.empty exercises_data"

subsection \<open>The CSV file and the scan (lines 35 to 55)\<close>

text \<open>
  \<^verbatim>\<open>csv.DictReader\<close> takes the first row as the field names, skips every empty row and
  turns each other row into a dictionary: the fields are paired with the field names in
  order (a later duplicate of a field name wins), and the field names a short row has no
  field for are given \<^verbatim>\<open>None\<close>. The fields of a long row beyond the field names are
  stored under the key \<^verbatim>\<open>None\<close>, which the script never reads, and are left out.
\<close>

datatype cell = Field string | Restval

record csv_file =
  fieldnames :: "string list"
  rows :: "string list list"

definition dict_row :: "string list \<Rightarrow> string list \<Rightarrow> (string \<rightharpoonup> cell)" where
  "dict_row fns row =
     fold (\<lambda>k d. d(k \<mapsto> Restval)) (drop (length row) fns)
       (fold (\<lambda>(k, v) d. d(k \<mapsto> Field v)) (zip fns row) Map.empty)"

definition dict_reader :: "csv_file \<Rightarrow> (string \<rightharpoonup> cell) list" where
  "dict_reader f = map (dict_row (fieldnames f)) (filter (\<lambda>row. row \<noteq> []) (rows f))"

text \<open>The dictionary that lines 46 to 51 append to the list of the date.\<close>

record log_entry =
  w_name :: string
  w_reps :: cell
  w_weight :: cell
  w_isWarmup :: cell

record scan_state =
  csv_exercises :: "string set"
  csv_workouts :: "string \<rightharpoonup> log_entry list"
  unmapped_exercises :: "string set"

definition init_state :: scan_state where
  "init_state = \<lparr>csv_exercises = {}, csv_workouts = Map.empty, unmapped_exercises = {}\<rparr>"

text \<open>
  The body of the loop of line 41. \<^verbatim>\<open>row[c]\<close> raises \<^verbatim>\<open>KeyError\<close> when the header has no
  column \<open>c\<close>; \<^verbatim>\<open>.strip()\<close> raises \<^verbatim>\<open>AttributeError\<close> on the \<^verbatim>\<open>None\<close> of a short row. The
  statements run in the order of the source: both trimmed fields are read first, the
  name is added, the entry is built and appended, and the index is consulted last. An
  exception ends the run and the state is lost with it, so the model reads the five
  columns, in the order of the source, before it builds the new state.
\<close>

definition scan_row :: "name_index \<Rightarrow> scan_state \<Rightarrow> (string \<rightharpoonup> cell) \<Rightarrow> error + scan_state" where
  "scan_row name_to_id st row =
     (case row ''Exercise'' of
        None \<Rightarrow> Inl KeyError
      | Some Restval \<Rightarrow> Inl AttributeError
      | Some (Field ex) \<Rightarrow>
     (case row ''Date'' of
        None \<Rightarrow> Inl KeyError
      | Some Restval \<Rightarrow> Inl AttributeError
      | Some (Field dt) \<Rightarrow>
     (case row ''Reps'' of
        None \<Rightarrow> Inl KeyError
      | Some reps \<Rightarrow>
     (case row ''Weight(kg)'' of
        None \<Rightarrow> Inl KeyError
      | Some weight \<Rightarrow>
     (case row ''isWarmup'' of
        None \<Rightarrow> Inl KeyError
      | Some warm \<Rightarrow>
          (let exercise_name = strip ex;
               date = strip dt;
               entry = \<lparr>w_name = exercise_name, w_reps = reps, w_weight = weight,
                        w_isWarmup = warm\<rparr>;
               st1 = st\<lparr>csv_exercises := insert exercise_name (csv_exercises st)\<rparr>;
               st2 = st1\<lparr>csv_workouts := (csv_workouts st1)
                         (date \<mapsto> (case csv_workouts st1 date of None \<Rightarrow> [] | Some es \<Rightarrow> es)
                                   @ [entry])\<rparr>
           in if name_to_id (lower exercise_name) = None
              then Inr (st2\<lparr>unmapped_exercises :=
                              insert exercise_name (unmapped_exercises st2)\<rparr>)
              else Inr st2))))))"

fun scan_rows :: "name_index \<Rightarrow> scan_state \<Rightarrow> (string \<rightharpoonup> cell) list \<Rightarrow> error + scan_state" where
  "scan_rows name_to_id st [] = Inr st"
| "scan_rows name_to_id st (row # rest) =
     (case scan_row name_to_id st row of
        Inl e \<Rightarrow> Inl e
      | Inr st1 \<Rightarrow> scan_rows name_to_id st1 rest)"

definition scan_csv :: "name_index \<Rightarrow> csv_file \<Rightarrow> error + scan_state" where
  "scan_csv name_to_id f = scan_rows name_to_id init_state (dict_reader f)"

subsection \<open>The report (lines 57 to 104)\<close>

text \<open>
  The output is the sequence of the script's \<^verbatim>\<open>print\<close> calls. Each constructor stands
  for one call (or one block of calls with a fixed text) and carries the values that the
  call interpolates. The two percentage lines carry the count and the total, which are
  the operands of the division: the text \<^verbatim>\<open>{a/b*100:.1f}\<close> is a floating-point
  computation and is not rendered.

  The constructors and the lines of the source: \<open>Title\<close> 15, \<open>LoadingJson\<close> 18,
  \<open>LoadedCount\<close> 31, \<open>ReadingCsv\<close> 34, \<open>FoundExercises\<close> 57, \<open>FoundDates\<close> 58,
  \<open>MappingHeader\<close> 61 to 63, \<open>MappedOf\<close> 66, \<open>UnmappedOf\<close> 67, \<open>Warning\<close> 70,
  \<open>UnmappedEntry\<close> 72, \<open>AndMore\<close> 74, \<open>AllMapped\<close> 76, \<open>SummaryHeader\<close> 78 to 80,
  \<open>TotalExercises\<close> 81, \<open>SuccessfullyMapped\<close> 82, \<open>MissingMappings\<close> 83,
  \<open>TotalDates\<close> 84, \<open>SampleHeader\<close> 88, \<open>SampleEntry\<close> 92, \<open>NextStepsHeader\<close> 94 to 96,
  \<open>FixSteps\<close> 98 to 101, \<open>ReadyForFirebase\<close> 103 and 104.
\<close>

datatype out_line =
    Title
  | LoadingJson
  | LoadedCount nat
  | ReadingCsv
  | FoundExercises nat
  | FoundDates nat
  | MappingHeader
  | MappedOf int nat
  | UnmappedOf nat nat
  | Warning nat
  | UnmappedEntry string
  | AndMore nat
  | AllMapped
  | SummaryHeader
  | TotalExercises nat
  | SuccessfullyMapped int nat
  | MissingMappings nat nat
  | TotalDates nat
  | SampleHeader
  | SampleEntry string "string option"
  | NextStepsHeader
  | FixSteps
  | ReadyForFirebase

definition mapped_count :: "scan_state \<Rightarrow> int" where
  "mapped_count st = int (card (csv_exercises st)) - int (card (unmapped_exercises st))"

text \<open>Lines 57 to 67: the two counts of the scan and the mapped and unmapped counts.\<close>

definition report_counts :: "scan_state \<Rightarrow> out_line list" where
  "report_counts st =
     [FoundExercises (card (csv_exercises st)),
      FoundDates (card (dom (csv_workouts st))),
      MappingHeader,
      MappedOf (mapped_count st) (card (csv_exercises st)),
      UnmappedOf (card (unmapped_exercises st)) (card (csv_exercises st))]"

text \<open>Lines 69 to 76: the unmapped names, sorted, the first 20 of them.\<close>

definition report_unmapped :: "scan_state \<Rightarrow> out_line list" where
  "report_unmapped st =
     (if unmapped_exercises st \<noteq> {}
      then Warning (card (unmapped_exercises st))
           # map UnmappedEntry (take 20 (sorted_list_of_set (unmapped_exercises st)))
           @ (if card (unmapped_exercises st) > 20
              then [AndMore (card (unmapped_exercises st) - 20)] else [])
      else [AllMapped])"

text \<open>Lines 87 to 92: up to ten mapped names with the id that the index gives.\<close>

definition report_sample :: "name_index \<Rightarrow> scan_state \<Rightarrow> out_line list" where
  "report_sample name_to_id st =
     (if mapped_count st > 0
      then SampleHeader
           # map (\<lambda>ex. SampleEntry ex (name_to_id (lower ex)))
               (take 10 (sorted_list_of_set (csv_exercises st - unmapped_exercises st)))
      else [])"

text \<open>Lines 94 to 104.\<close>

definition report_next_steps :: "scan_state \<Rightarrow> out_line list" where
  "report_next_steps st =
     [NextStepsHeader, if unmapped_exercises st \<noteq> {} then FixSteps else ReadyForFirebase]"

text \<open>
  The whole report. Line 82 divides by \<^verbatim>\<open>len(csv_exercises)\<close>: when that is zero the
  f-string raises \<^verbatim>\<open>ZeroDivisionError\<close> before the line is printed, and the lines printed
  so far are all the output there is.
\<close>

definition report :: "name_index \<Rightarrow> scan_state \<Rightarrow> out_line list \<times> error option" where
  "report name_to_id st =
     (let total = card (csv_exercises st);
          out1 = report_counts st @ report_unmapped st @ [SummaryHeader, TotalExercises total]
      in if total = 0 then (out1, Some ZeroDivisionError)
         else (out1
               @ [SuccessfullyMapped (mapped_count st) total,
                  MissingMappings (card (unmapped_exercises st)) total,
                  TotalDates (card (dom (csv_workouts st)))]
               @ report_sample name_to_id st
               @ report_next_steps st, None))"

subsection \<open>The script\<close>

text \<open>
  The result is the output and the exception that ended the run, if any. An exception
  of the loader or of the scan ends the run with the lines printed before it.
\<close>

definition main :: "(string \<times> jobject) list \<Rightarrow> csv_file \<Rightarrow> out_line list \<times> error option" where
  "main exercises_data f =
     (case load_index exercises_data of
        Inl e \<Rightarrow> ([Title, LoadingJson], Some e)
      | Inr name_to_id \<Rightarrow>
          (case scan_csv name_to_id f of
             Inl e \<Rightarrow> ([Title, LoadingJson, LoadedCount (length exercises_data), ReadingCsv],
                       Some e)
           | Inr st \<Rightarrow>
               (case report name_to_id st of
                  (out, err) \<Rightarrow>
                    ([Title, LoadingJson, LoadedCount (length exercises_data), ReadingCsv]
                     @ out, err))))"

subsection \<open>Notions of the specification\<close>

text \<open>
  The normalised form of a name, in the specification's words: lower-cased and trimmed.
\<close>

definition normalized :: "string \<Rightarrow> string" where
  "normalized s = strip (lower s)"

text \<open>A string without leading or trailing whitespace.\<close>

definition trimmed :: "string \<Rightarrow> bool" where
  "trimmed s = (s = [] \<or> (\<not> is_space (hd s) \<and> \<not> is_space (last s)))"

text \<open>
  The keys that a record of the mapping file produces, in the specification's words:
  its lower-cased trimmed name and its lower-cased trimmed export name.
\<close>

definition claimed_keys :: "jobject \<Rightarrow> string list" where
  "claimed_keys data =
     (case data ''name'' of
        Some (JStr n) \<Rightarrow>
          normalized n
          # (case data ''exportName'' of Some (JStr e) \<Rightarrow> [normalized e] | _ \<Rightarrow> [])
      | _ \<Rightarrow> [])"

text \<open>
  The same with the one exception that the code makes: an export name that is the empty
  string produces no key.
\<close>

definition produced_keys :: "jobject \<Rightarrow> string list" where
  "produced_keys data =
     (case data ''name'' of
        Some (JStr n) \<Rightarrow>
          normalized n
          # (case data ''exportName'' of
               Some (JStr e) \<Rightarrow> if e \<noteq> [] then [normalized e] else []
             | _ \<Rightarrow> [])
      | _ \<Rightarrow> [])"

text \<open>
  The keys that the loop body of line 24 writes for one exercise object, in the order
  of the writes: line 26 writes the key of the name, line 29 the key of the export name
  when the test of line 28 passes. This is the code's side; it is compared with
  \<open>produced_keys\<close> below.
\<close>

definition written_keys :: "jobject \<Rightarrow> string list" where
  "written_keys data =
     (case data ''name'' of
        Some (JStr n) \<Rightarrow>
          strip (lower n)
          # (case data ''exportName'' of
               Some (JStr e) \<Rightarrow>
                 if e \<noteq> [] \<and> lower e \<noteq> strip (lower n) then [strip (lower e)] else []
             | _ \<Rightarrow> [])
      | _ \<Rightarrow> [])"

subsection \<open>Example inputs\<close>

text \<open>
  A mapping file with three exercises: the export name of the second normalises to the
  key of the first, and the name of the third carries a leading blank.
\<close>

definition example_exercises :: "(string \<times> jobject) list" where
  "example_exercises =
     [(''1'', [''name'' \<mapsto> JStr ''Bench Press'']),
      (''2'', [''name'' \<mapsto> JStr ''Press'', ''exportName'' \<mapsto> JStr '' BENCH PRESS '']),
      (''3'', [''name'' \<mapsto> JStr '' Squat'', ''exportName'' \<mapsto> JStr ''Back Squat''])]"

definition example_index :: name_index where
  "example_index =
     [''press'' \<mapsto> ''2'', ''bench press'' \<mapsto> ''2'', ''squat'' \<mapsto> ''3'',
      ''back squat'' \<mapsto> ''3'']"


text \<open>
  A CSV export for the mapping file above: three data rows and one empty row, with
  blanks around two of the fields. One name has no entry in the index.
\<close>

definition example_csv :: csv_file where
  "example_csv =
     \<lparr>fieldnames = [''Date'', ''Exercise'', ''Reps'', ''Weight(kg)'', ''isWarmup''],
      rows = [[''2024-01-01'', ''bench press '', ''5'', ''60'', ''false''],
              [],
              [''2024-01-01'', ''Deadlift'', ''3'', ''100'', ''false''],
              [''2024-01-02 '', '' Back Squat'', ''5'', ''80'', ''true'']]\<rparr>"

definition example_state :: scan_state where
  "example_state =
     \<lparr>csv_exercises = {''Back Squat'', ''Deadlift'', ''bench press''},
      csv_workouts =
        [''2024-01-01'' \<mapsto>
           [\<lparr>w_name = ''bench press'', w_reps = Field ''5'', w_weight = Field ''60'',
             w_isWarmup = Field ''false''\<rparr>,
            \<lparr>w_name = ''Deadlift'', w_reps = Field ''3'', w_weight = Field ''100'',
             w_isWarmup = Field ''false''\<rparr>],
         ''2024-01-02'' \<mapsto>
           [\<lparr>w_name = ''Back Squat'', w_reps = Field ''5'', w_weight = Field ''80'',
             w_isWarmup = Field ''true''\<rparr>]],
      unmapped_exercises = {''Deadlift''}\<rparr>"

text \<open>The columns that the loop body of line 41 reads from every row.\<close>

definition required_columns :: "string list" where
  "required_columns = [''Exercise'', ''Date'', ''Reps'', ''Weight(kg)'', ''isWarmup'']"

text \<open>A CSV file with a header and an empty line and no data row.\<close>

definition header_only_csv :: csv_file where
  "header_only_csv =
     \<lparr>fieldnames = [''Date'', ''Exercise'', ''Reps'', ''Weight(kg)'', ''isWarmup''],
      rows = [[]]\<rparr>"

text \<open>A CSV file whose header has no column \<^verbatim>\<open>Reps\<close>.\<close>

definition no_reps_csv :: csv_file where
  "no_reps_csv =
     \<lparr>fieldnames = [''Date'', ''Exercise'', ''Weight(kg)'', ''isWarmup''],
      rows = [[''2024-01-01'', ''Squat'', ''60'', ''false'']]\<rparr>"

text \<open>
  Two exercises whose export names both normalise to the empty string, the first a
  blank and the second the empty string.
\<close>

definition blank_export_exercises :: "(string \<times> jobject) list" where
  "blank_export_exercises =
     [(''1'', [''name'' \<mapsto> JStr ''A'', ''exportName'' \<mapsto> JStr '' '']),
      (''2'', [''name'' \<mapsto> JStr ''B'', ''exportName'' \<mapsto> JStr ''''])]"



text \<open>
  25 names without an entry in any index, upper-case and lower-case initials mixed, and
  a CSV file with one row for each of them; the state is the one the scan reaches on
  this file with the empty index.
\<close>

definition names25 :: "string list" where
  "names25 =
     [''Row'', ''Curl'', ''Dip'', ''Lunge'', ''Plank'', ''Press'', ''Pull'', ''Push'',
      ''Squat'', ''Step'', ''Swing'', ''Thrust'', ''Twist'', ''Walk'', ''Yoga'',
      ''burpee'', ''crunch'', ''deadlift'', ''fly'', ''hang'', ''jump'', ''kick'',
      ''Abs'', ''Bike'', ''zumba'']"

definition csv25 :: csv_file where
  "csv25 =
     \<lparr>fieldnames = [''Date'', ''Exercise'', ''Reps'', ''Weight(kg)'', ''isWarmup''],
      rows = map (\<lambda>n. [''2024-01-01'', n, ''5'', ''60'', ''false'']) names25\<rparr>"

definition state25 :: scan_state where
  "state25 =
     \<lparr>csv_exercises = set names25,
      csv_workouts =
        [''2024-01-01'' \<mapsto>
           map (\<lambda>n. \<lparr>w_name = n, w_reps = Field ''5'', w_weight = Field ''60'',
                      w_isWarmup = Field ''false''\<rparr>) names25],
      unmapped_exercises = set names25\<rparr>"

text \<open>
  A mapping file with the one exercise \<^verbatim>\<open>Bench Press\<close>, and the CSV files with two data
  rows, the first for \<^verbatim>\<open>bench press\<close> and the second for \<^verbatim>\<open>Bench Press\<close>; the dates
  and the other three fields of each row are parameters.
\<close>

definition bench_exercises :: "(string \<times> jobject) list" where
  "bench_exercises = [(''1'', [''name'' \<mapsto> JStr ''Bench Press''])]"

definition bench_csv ::
  "string \<Rightarrow> string \<Rightarrow> string \<times> string \<times> string \<Rightarrow> string \<times> string \<times> string \<Rightarrow> csv_file" where
  "bench_csv d1 d2 a b =
     \<lparr>fieldnames = [''Exercise'', ''Date'', ''Reps'', ''Weight(kg)'', ''isWarmup''],
      rows = [[''bench press'', d1, fst a, fst (snd a), snd (snd a)],
              [''Bench Press'', d2, fst b, fst (snd b), snd (snd b)]]\<rparr>"

text \<open>
  The sizes of the set of names seen, of the set of unmapped names and of the dictionary
  of dates.
\<close>

definition set_sizes :: "scan_state \<Rightarrow> nat \<times> nat \<times> nat" where
  "set_sizes st =
     (card (csv_exercises st), card (unmapped_exercises st), card (dom (csv_workouts st)))"

section \<open>Properties of the string operations\<close>

lemma is_space_lower_char: "is_space (lower_char c) = is_space c"
  by (auto simp add: is_space_def lower_char_def Let_def)

lemma lower_char_idem: "lower_char (lower_char c) = lower_char c"
  by (auto simp add: lower_char_def Let_def)

lemma lower_idem: "lower (lower s) = lower s"
  by (simp add: lower_def lower_char_idem)

lemma lower_strip: "lower (strip s) = strip (lower s)"
  by (simp add: lower_def strip_def rev_map dropWhile_map comp_def is_space_lower_char)

lemma dropWhile_fix: "(xs = [] \<or> \<not> P (hd xs)) \<Longrightarrow> dropWhile P xs = xs"
  by (cases xs) auto

lemma last_dropWhile_keep: "dropWhile P xs \<noteq> [] \<Longrightarrow> last (dropWhile P xs) = last xs"
proof -
  assume ne: "dropWhile P xs \<noteq> []"
  have "last xs = last (takeWhile P xs @ dropWhile P xs)" by simp
  also have "\<dots> = last (dropWhile P xs)" using ne by (simp only: last_append if_False)
  finally show ?thesis by simp
qed

lemma trimmed_strip: "trimmed (strip s)"
proof -
  define t where "t = dropWhile is_space s"
  define u where "u = dropWhile is_space (rev t)"
  have s: "strip s = rev u" by (simp add: strip_def t_def u_def)
  show ?thesis
  proof (cases "u = []")
    case True
    then show ?thesis by (simp add: s trimmed_def)
  next
    case False
    then have rt: "rev t \<noteq> []" by (auto simp add: u_def)
    have "\<not> is_space (hd u)" using False unfolding u_def by (rule hd_dropWhile)
    then have a: "\<not> is_space (last (rev u))" using False by (simp add: last_rev)
    have "last u = last (rev t)" using False unfolding u_def by (rule last_dropWhile_keep)
    also have "\<dots> = hd t" using rt by (simp add: last_rev)
    finally have lu: "last u = hd t" .
    have "\<not> is_space (hd t)" using rt unfolding t_def by (simp add: hd_dropWhile)
    then have b: "\<not> is_space (hd (rev u))" using False lu by (simp add: hd_rev)
    show ?thesis using a b by (simp add: s trimmed_def)
  qed
qed

lemma trimmed_fix: "trimmed s \<Longrightarrow> strip s = s"
proof (cases "s = []")
  case True
  then show ?thesis by (simp add: strip_def)
next
  case False
  assume "trimmed s"
  with False have h: "\<not> is_space (hd s)" and l: "\<not> is_space (last s)"
    by (simp_all add: trimmed_def)
  have 1: "dropWhile is_space s = s" using h False by (simp add: dropWhile_fix)
  have "hd (rev s) = last s" using False by (simp add: hd_rev)
  then have 2: "dropWhile is_space (rev s) = rev s" using l by (simp add: dropWhile_fix)
  show ?thesis by (simp add: strip_def 1 2)
qed

lemma strip_idem: "strip (strip s) = strip s"
  by (rule trimmed_fix) (rule trimmed_strip)

text \<open>Unfolding these evaluates the string operations on a literal.\<close>

lemmas string_eval =
  lower_def lower_char_def char_of_def bit_Suc_0_iff strip_def is_space_def

section \<open>The name index\<close>

text \<open>What one pass of the loop body does to the index, key by key.\<close>

lemma index_record_writes:
  assumes "index_record m (i, d) = Inr m'"
  shows "m' k = (if k \<in> set (written_keys d) then Some i else m k)"
  using assms
  by (auto simp add: index_record_def written_keys_def Let_def
      split: option.splits jvalue.splits if_splits)

text \<open>
  What the whole loop does: a key holds the id of the last record that wrote it, and
  a key that no record wrote keeps what it held before.
\<close>

lemma build_index_lookup:
  assumes "build_index m xs = Inr m'"
  shows "m' k = (case filter (\<lambda>r. k \<in> set (written_keys (snd r))) xs of
                   [] \<Rightarrow> m k | w # ws \<Rightarrow> Some (fst (last (w # ws))))"
  using assms
proof (induction xs arbitrary: m)
  case Nil
  then show ?case by simp
next
  case (Cons r rs)
  obtain i d where r: "r = (i, d)" by (cases r)
  from Cons.prems obtain m1 where s: "index_record m (i, d) = Inr m1"
    and b: "build_index m1 rs = Inr m'"
    by (auto simp add: r split: sum.splits)
  note ih = Cons.IH [OF b]
  note w = index_record_writes [OF s, of k]
  show ?case
    by (cases "filter (\<lambda>r. k \<in> set (written_keys (snd r))) rs")
       (simp_all add: r ih w)
qed

lemma normalized_alias_differs:
  "normalized e \<noteq> normalized n \<Longrightarrow> lower e \<noteq> strip (lower n)"
  by (auto simp add: normalized_def) (metis strip_idem)

lemma load_example: "load_index example_exercises = Inr example_index"
  by (simp add: load_index_def example_exercises_def example_index_def index_record_def
      Let_def string_eval)

text \<open>
  The keys that the loop body writes are, as a set, the keys of \<open>produced_keys\<close>: when
  the test of line 28 fails for a non-empty export name, its key is the key of the name.
\<close>

lemma written_produced: "set (written_keys d) = set (produced_keys d)"
proof (cases "d ''name''")
  case None
  then show ?thesis by (simp add: written_keys_def produced_keys_def)
next
  case (Some v)
  show ?thesis
  proof (cases v)
    case (JOther t)
    with Some show ?thesis by (simp add: written_keys_def produced_keys_def)
  next
    case (JStr n)
    note n = Some [unfolded JStr]
    show ?thesis
    proof (cases "d ''exportName''")
      case None
      with n show ?thesis by (simp add: written_keys_def produced_keys_def normalized_def)
    next
      case (Some u)
      show ?thesis
      proof (cases u)
        case (JOther t)
        with n Some show ?thesis
          by (simp add: written_keys_def produced_keys_def normalized_def)
      next
        case (JStr e)
        have "lower e = strip (lower n) \<Longrightarrow> strip (lower e) = strip (lower n)"
          by (simp add: strip_idem)
        with n Some JStr show ?thesis
          by (auto simp add: written_keys_def produced_keys_def normalized_def)
      qed
    qed
  qed
qed

text \<open>The index that the loader returns, key by key.\<close>

lemma load_index_lookup:
  assumes "load_index xs = Inr name_to_id"
  shows "name_to_id k = (case filter (\<lambda>r. k \<in> set (produced_keys (snd r))) xs of
                           [] \<Rightarrow> None | w # ws \<Rightarrow> Some (fst (last (w # ws))))"
  using build_index_lookup [OF assms [unfolded load_index_def], of k]
  by (simp add: written_produced)

text \<open>
  C6, as amended. When several records of the mapping file produce the same key (the
  lower-cased trimmed name, or the lower-cased trimmed export name when the export name
  is not the empty string), the index holds for that key the id of the last of them in
  the order of processing. The records that produce the key \<open>k\<close> are collected in \<open>ws\<close>;
  the statement covers one producer as well as two or more. The index is a dictionary,
  so the key has this one entry and no other.
\<close>

theorem last_write_wins:
  assumes "load_index exercises_data = Inr name_to_id"
    and "ws = filter (\<lambda>r. k \<in> set (produced_keys (snd r))) exercises_data"
    and "ws \<noteq> []"
  shows "name_to_id k = Some (fst (last ws))"
proof -
  have "name_to_id k = (case ws of [] \<Rightarrow> None | w # ws' \<Rightarrow> Some (fst (last (w # ws'))))"
    using load_index_lookup [OF assms(1), of k]
    by (simp add: assms(2))
  with assms(3) show ?thesis
    by (simp split: list.splits)
qed

theorem last_write_wins_witness:
  "load_index example_exercises = Inr example_index
   \<and> take 2 example_exercises
       = filter (\<lambda>r. ''bench press'' \<in> set (produced_keys (snd r))) example_exercises
   \<and> take 2 example_exercises \<noteq> []
   \<and> example_index ''bench press'' = Some ''2''"
proof -
  have h2: "take 2 example_exercises
       = filter (\<lambda>r. ''bench press'' \<in> set (produced_keys (snd r))) example_exercises"
    by (simp add: example_exercises_def produced_keys_def normalized_def string_eval)
  have h3: "take 2 example_exercises \<noteq> []"
    by (simp add: example_exercises_def)
  have v: "fst (last (take 2 example_exercises)) = ''2''"
    by (simp add: example_exercises_def)
  show ?thesis
    using load_example h2 h3 last_write_wins [OF load_example h2 h3, unfolded v]
    by blast
qed

text \<open>
  C6 as stated fails when the empty string is an export name. Both records of the
  example have an export name whose lower-cased trimmed form is the empty string, and
  the second is processed last, but the index maps the empty string to the id of the
  first: line 28 skips the empty export name of the second.
\<close>

theorem last_producer_counterexample:
  "filter (\<lambda>r. '''' \<in> set (claimed_keys (snd r))) blank_export_exercises
     = blank_export_exercises
   \<and> fst (last blank_export_exercises) = ''2''
   \<and> load_index blank_export_exercises = Inr [''a'' \<mapsto> ''1'', '''' \<mapsto> ''1'', ''b'' \<mapsto> ''2'']
   \<and> map_sum id (\<lambda>name_to_id. name_to_id '''') (load_index blank_export_exercises)
       = Inr (Some ''1'')"
  by (simp add: blank_export_exercises_def claimed_keys_def load_index_def index_record_def
      Let_def normalized_def string_eval)

section \<open>The scan\<close>

text \<open>What one pass of the loop body of line 41 does to the three collections.\<close>

lemma scan_row_result:
  assumes "scan_row idx st row = Inr st'"
  shows "\<exists>ex dt. row ''Exercise'' = Some (Field ex) \<and> row ''Date'' = Some (Field dt)
           \<and> csv_exercises st' = insert (strip ex) (csv_exercises st)
           \<and> unmapped_exercises st'
               = (if idx (lower (strip ex)) = None
                  then insert (strip ex) (unmapped_exercises st)
                  else unmapped_exercises st)
           \<and> dom (csv_workouts st') = insert (strip dt) (dom (csv_workouts st))"
proof -
  from assms obtain ex dt reps weight warm where
    r: "row ''Exercise'' = Some (Field ex)" "row ''Date'' = Some (Field dt)"
       "row ''Reps'' = Some reps" "row ''Weight(kg)'' = Some weight"
       "row ''isWarmup'' = Some warm"
    by (simp add: scan_row_def split: option.splits cell.splits)
  show ?thesis
    using assms by (auto simp add: scan_row_def r Let_def split: if_splits)
qed

text \<open>
  Three invariants of the loop: the collections stay finite, the unmapped names are
  exactly the names seen so far whose lower-cased form misses the index, and every name
  seen is trimmed.
\<close>

lemma scan_rows_finite:
  assumes "scan_rows idx st rs = Inr st'"
    and "finite (csv_exercises st)" and "finite (dom (csv_workouts st))"
  shows "finite (csv_exercises st') \<and> finite (dom (csv_workouts st'))"
  using assms
proof (induction rs arbitrary: st)
  case Nil
  then show ?case by simp
next
  case (Cons r rs)
  from Cons.prems(1) obtain st1 where s: "scan_row idx st r = Inr st1"
    and t: "scan_rows idx st1 rs = Inr st'"
    by (auto split: sum.splits)
  from scan_row_result [OF s] Cons.prems(2,3)
  have "finite (csv_exercises st1)" "finite (dom (csv_workouts st1))"
    by auto
  with Cons.IH [OF t] show ?case by simp
qed

lemma Collect_insert_in: "P a \<Longrightarrow> insert a {x \<in> E. P x} = {x \<in> insert a E. P x}"
  by auto

lemma Collect_insert_out: "\<not> P a \<Longrightarrow> {x \<in> E. P x} = {x \<in> insert a E. P x}"
  by auto

lemma scan_row_unmapped:
  assumes "scan_row idx st r = Inr st1"
    and "unmapped_exercises st = {x \<in> csv_exercises st. idx (lower x) = None}"
  shows "unmapped_exercises st1 = {x \<in> csv_exercises st1. idx (lower x) = None}"
proof -
  from scan_row_result [OF assms(1)] obtain ex where
    e: "csv_exercises st1 = insert (strip ex) (csv_exercises st)" and
    u: "unmapped_exercises st1
         = (if idx (lower (strip ex)) = None
            then insert (strip ex) (unmapped_exercises st)
            else unmapped_exercises st)"
    by blast
  show ?thesis
  proof (cases "idx (lower (strip ex)) = None")
    case True
    from u True have "unmapped_exercises st1 = insert (strip ex) (unmapped_exercises st)"
      by simp
    also have "\<dots> = insert (strip ex) {x \<in> csv_exercises st. idx (lower x) = None}"
      by (simp only: assms(2))
    also have "\<dots> = {x \<in> insert (strip ex) (csv_exercises st). idx (lower x) = None}"
      using True by (rule Collect_insert_in [where P = "\<lambda>x. idx (lower x) = None"])
    finally show ?thesis by (simp only: e)
  next
    case False
    from u False have "unmapped_exercises st1 = unmapped_exercises st"
      by simp
    also have "\<dots> = {x \<in> csv_exercises st. idx (lower x) = None}"
      by (rule assms(2))
    also have "\<dots> = {x \<in> insert (strip ex) (csv_exercises st). idx (lower x) = None}"
      using False by (rule Collect_insert_out [where P = "\<lambda>x. idx (lower x) = None"])
    finally show ?thesis by (simp only: e)
  qed
qed

lemma scan_rows_unmapped:
  assumes "scan_rows idx st rs = Inr st'"
    and "unmapped_exercises st = {x \<in> csv_exercises st. idx (lower x) = None}"
  shows "unmapped_exercises st' = {x \<in> csv_exercises st'. idx (lower x) = None}"
  using assms
proof (induction rs arbitrary: st)
  case Nil
  then show ?case by simp
next
  case (Cons r rs)
  from Cons.prems(1) obtain st1 where s: "scan_row idx st r = Inr st1"
    and t: "scan_rows idx st1 rs = Inr st'"
    by (auto split: sum.splits)
  from Cons.IH [OF t scan_row_unmapped [OF s Cons.prems(2)]] show ?case .
qed

lemma scan_rows_trimmed:
  assumes "scan_rows idx st rs = Inr st'"
    and "\<forall>x\<in>csv_exercises st. trimmed x"
  shows "\<forall>x\<in>csv_exercises st'. trimmed x"
  using assms
proof (induction rs arbitrary: st)
  case Nil
  then show ?case by simp
next
  case (Cons r rs)
  from Cons.prems(1) obtain st1 where s: "scan_row idx st r = Inr st1"
    and t: "scan_rows idx st1 rs = Inr st'"
    by (auto split: sum.splits)
  from scan_row_result [OF s] Cons.prems(2)
  have "\<forall>x\<in>csv_exercises st1. trimmed x"
    by (auto simp add: trimmed_strip)
  with Cons.IH [OF t] show ?case by simp
qed

lemma scan_csv_finite:
  assumes "scan_csv idx f = Inr st"
  shows "finite (csv_exercises st)" and "finite (dom (csv_workouts st))"
  using scan_rows_finite [OF assms [unfolded scan_csv_def]]
  by (simp_all add: init_state_def)

lemma scan_csv_unmapped:
  assumes "scan_csv idx f = Inr st"
  shows "unmapped_exercises st = {x \<in> csv_exercises st. idx (lower x) = None}"
  using scan_rows_unmapped [OF assms [unfolded scan_csv_def]]
  by (simp add: init_state_def)

lemma scan_example: "scan_csv example_index example_csv = Inr example_state"
  by (simp add: scan_csv_def dict_reader_def dict_row_def example_csv_def example_index_def
      example_state_def scan_row_def init_state_def Let_def string_eval)

text \<open>
  C4. After a scan that completes, the unmapped names are a subset of the names seen,
  the mapped count is the difference of the two sizes, the mapped count and the number
  of unmapped names add up to the number of names seen, and the mapped count is not
  negative: it is the number of names seen that are not unmapped.
\<close>

theorem mapped_count_partition:
  assumes "scan_csv name_to_id f = Inr st"
  shows "unmapped_exercises st \<subseteq> csv_exercises st
         \<and> mapped_count st = int (card (csv_exercises st)) - int (card (unmapped_exercises st))
         \<and> mapped_count st + int (card (unmapped_exercises st)) = int (card (csv_exercises st))
         \<and> 0 \<le> mapped_count st
         \<and> mapped_count st = int (card (csv_exercises st - unmapped_exercises st))"
proof -
  have sub: "unmapped_exercises st \<subseteq> csv_exercises st"
    using scan_csv_unmapped [OF assms] by auto
  have fin: "finite (csv_exercises st)"
    by (rule scan_csv_finite [OF assms])
  have le: "card (unmapped_exercises st) \<le> card (csv_exercises st)"
    using sub fin by (rule card_mono [rotated])
  have diff: "card (csv_exercises st - unmapped_exercises st)
      = card (csv_exercises st) - card (unmapped_exercises st)"
    using sub fin by (simp add: card_Diff_subset finite_subset)
  show ?thesis
    using sub le diff by (simp add: mapped_count_def)
qed


theorem mapped_count_partition_witness:
  "scan_csv example_index example_csv = Inr example_state
   \<and> unmapped_exercises example_state \<subseteq> csv_exercises example_state
   \<and> card (csv_exercises example_state) = 3
   \<and> card (unmapped_exercises example_state) = 1
   \<and> mapped_count example_state = 2"
proof -
  have c: "card (csv_exercises example_state) = 3"
    "card (unmapped_exercises example_state) = 1"
    by (simp_all add: example_state_def)
  have m: "mapped_count example_state = 2"
    by (simp add: mapped_count_def c)
  show ?thesis
    using scan_example mapped_count_partition [OF scan_example] c m
    by blast
qed

section \<open>Failures\<close>

text \<open>A row dictionary has no key outside the header.\<close>

lemma dom_fold_restval:
  "dom (fold (\<lambda>k d. d(k \<mapsto> v)) ks m) = dom m \<union> set ks"
  by (induction ks arbitrary: m) auto

lemma dom_fold_fields:
  "dom (fold (\<lambda>(k, v) d. d(k \<mapsto> g v)) kvs m) = dom m \<union> fst ` set kvs"
  by (induction kvs arbitrary: m) auto

lemma dom_dict_row: "dom (dict_row fns row) \<subseteq> set fns"
proof -
  have "fst ` set (zip fns row) \<subseteq> set fns"
    by (auto dest: set_zip_leftD)
  moreover have "set (drop (length row) fns) \<subseteq> set fns"
    by (rule set_drop_subset)
  ultimately show ?thesis
    unfolding dict_row_def dom_fold_restval dom_fold_fields by auto
qed

lemma dict_row_missing: "c \<notin> set fns \<Longrightarrow> dict_row fns row c = None"
  using dom_dict_row [of fns row] by (auto simp add: dom_def)

text \<open>
  The loop body returns only when the row has all five columns, and its only
  exceptions are \<^verbatim>\<open>KeyError\<close> and \<^verbatim>\<open>AttributeError\<close>.
\<close>

lemma scan_row_columns:
  assumes "scan_row idx st row = Inr st'" and "c \<in> set required_columns"
  shows "row c \<noteq> None"
proof -
  from assms(1) obtain ex dt reps weight warm where
    "row ''Exercise'' = Some (Field ex)" "row ''Date'' = Some (Field dt)"
    "row ''Reps'' = Some reps" "row ''Weight(kg)'' = Some weight"
    "row ''isWarmup'' = Some warm"
    by (simp add: scan_row_def split: option.splits cell.splits)
  with assms(2) show ?thesis
    by (auto simp add: required_columns_def)
qed

lemma scan_row_error:
  assumes "scan_row idx st row = Inl e"
  shows "e = KeyError \<or> e = AttributeError"
  using assms
  by (simp add: scan_row_def Let_def split: option.splits cell.splits if_splits) 

lemma scan_row_missing:
  assumes "c \<in> set required_columns" and "row c = None"
  shows "\<exists>e. (e = KeyError \<or> e = AttributeError) \<and> scan_row idx st row = Inl e"
proof (cases "scan_row idx st row")
  case (Inl e)
  with scan_row_error [OF Inl] show ?thesis by blast
next
  case (Inr st')
  from scan_row_columns [OF Inr assms(1)] assms(2) show ?thesis by simp
qed

text \<open>
  C7. When the header lacks one of the required columns, the row dictionary of the
  first data row has no entry for it (nothing is put in its place), the loop body fails
  on that row with an exception, the scan fails with it, and the run ends after the four
  lines printed before the scan: no row is classified and no report line is printed.
\<close>

theorem missing_column_fails:
  assumes "load_index exercises_data = Inr name_to_id"
    and "c \<in> set required_columns" and "c \<notin> set (fieldnames f)"
    and "dict_reader f = row # rest"
  shows "row c = None
         \<and> (\<exists>e. (e = KeyError \<or> e = AttributeError)
                \<and> scan_row name_to_id init_state row = Inl e
                \<and> scan_csv name_to_id f = Inl e
                \<and> main exercises_data f
                    = ([Title, LoadingJson, LoadedCount (length exercises_data), ReadingCsv],
                       Some e))"
proof -
  from assms(4) have "row \<in> set (dict_reader f)" by simp
  then obtain r where "row = dict_row (fieldnames f) r"
    by (auto simp add: dict_reader_def)
  with assms(3) have none: "row c = None"
    by (simp add: dict_row_missing)
  from scan_row_missing [of c row name_to_id init_state, OF assms(2) none]
  obtain e where e: "e = KeyError \<or> e = AttributeError"
    and s: "scan_row name_to_id init_state row = Inl e"
    by blast
  have c: "scan_csv name_to_id f = Inl e"
    by (simp add: scan_csv_def assms(4) s)
  have "main exercises_data f
      = ([Title, LoadingJson, LoadedCount (length exercises_data), ReadingCsv], Some e)"
    by (simp add: main_def assms(1) c)
  with none e s c show ?thesis by blast
qed

theorem missing_column_fails_witness:
  "load_index example_exercises = Inr example_index
   \<and> ''Reps'' \<in> set required_columns \<and> ''Reps'' \<notin> set (fieldnames no_reps_csv)
   \<and> dict_reader no_reps_csv
       = [dict_row (fieldnames no_reps_csv) [''2024-01-01'', ''Squat'', ''60'', ''false'']]
   \<and> main example_exercises no_reps_csv
       = ([Title, LoadingJson, LoadedCount 3, ReadingCsv], Some KeyError)"
proof -
  have h2: "''Reps'' \<in> set required_columns"
    by (simp add: required_columns_def)
  have h3: "''Reps'' \<notin> set (fieldnames no_reps_csv)"
    by (simp add: no_reps_csv_def)
  have h4: "dict_reader no_reps_csv
       = [dict_row (fieldnames no_reps_csv) [''2024-01-01'', ''Squat'', ''60'', ''false'']]"
    by (simp add: dict_reader_def no_reps_csv_def)
  have l: "length example_exercises = 3"
    by (simp add: example_exercises_def)
  have sc: "scan_csv example_index no_reps_csv = Inl KeyError"
    unfolding scan_csv_def h4
    by (simp add: scan_row_def dict_row_def no_reps_csv_def)
  have m: "main example_exercises no_reps_csv
       = ([Title, LoadingJson, LoadedCount 3, ReadingCsv], Some KeyError)"
    by (simp add: main_def load_example sc l)
  show ?thesis
    using load_example h2 h3 h4 m missing_column_fails [OF load_example h2 h3 h4]
    by blast
qed

text \<open>
  C2. When the CSV file has no data row, the scan ends with its three collections
  empty, and the report stops at line 82 with \<^verbatim>\<open>ZeroDivisionError\<close>: the counts of
  lines 57 to 67 and the total of line 81 are printed, with zero everywhere, and neither
  percentage line is.
\<close>

theorem empty_csv_division_by_zero:
  assumes "load_index exercises_data = Inr name_to_id"
    and "dict_reader f = []"
  shows "scan_csv name_to_id f = Inr init_state
         \<and> csv_exercises init_state = {}
         \<and> main exercises_data f
             = ([Title, LoadingJson, LoadedCount (length exercises_data), ReadingCsv,
                 FoundExercises 0, FoundDates 0, MappingHeader, MappedOf 0 0, UnmappedOf 0 0,
                 AllMapped, SummaryHeader, TotalExercises 0],
                Some ZeroDivisionError)"
proof -
  have s: "scan_csv name_to_id f = Inr init_state"
    by (simp add: scan_csv_def assms(2))
  have i: "csv_exercises init_state = {}" "unmapped_exercises init_state = {}"
    "csv_workouts init_state = Map.empty"
    by (simp_all add: init_state_def)
  have "report name_to_id init_state
      = ([FoundExercises 0, FoundDates 0, MappingHeader, MappedOf 0 0, UnmappedOf 0 0,
          AllMapped, SummaryHeader, TotalExercises 0], Some ZeroDivisionError)"
    by (simp add: report_def report_counts_def report_unmapped_def mapped_count_def i)
  then show ?thesis
    by (simp add: main_def assms(1) s i)
qed

theorem empty_csv_division_by_zero_witness:
  "load_index example_exercises = Inr example_index
   \<and> dict_reader header_only_csv = []
   \<and> main example_exercises header_only_csv
       = ([Title, LoadingJson, LoadedCount 3, ReadingCsv,
           FoundExercises 0, FoundDates 0, MappingHeader, MappedOf 0 0, UnmappedOf 0 0,
           AllMapped, SummaryHeader, TotalExercises 0],
          Some ZeroDivisionError)"
proof -
  have h2: "dict_reader header_only_csv = []"
    by (simp add: dict_reader_def header_only_csv_def)
  have l: "length example_exercises = 3"
    by (simp add: example_exercises_def)
  show ?thesis
    using load_example h2 empty_csv_division_by_zero [OF load_example h2, unfolded l]
    by blast
qed

section \<open>Normal forms\<close>

text \<open>Every key that the loader writes is trimmed and lower-cased.\<close>

lemma written_keys_normal:
  assumes "k \<in> set (written_keys d)"
  shows "trimmed k \<and> lower k = k"
proof -
  from assms obtain s where "k = strip (lower s)"
    by (auto simp add: written_keys_def split: option.splits jvalue.splits if_splits)
  then show ?thesis
    by (simp add: trimmed_strip lower_strip lower_idem)
qed

lemma build_index_dom:
  assumes "build_index m xs = Inr m'" and "m' k = Some i"
  shows "m k = Some i \<or> (\<exists>r\<in>set xs. k \<in> set (written_keys (snd r)) \<and> i = fst r)"
proof (cases "filter (\<lambda>r. k \<in> set (written_keys (snd r))) xs")
  case Nil
  with build_index_lookup [OF assms(1), of k] assms(2) show ?thesis by simp
next
  case (Cons w ws)
  then have "last (w # ws) \<in> set (filter (\<lambda>r. k \<in> set (written_keys (snd r))) xs)"
    by (metis last_in_set list.distinct(1))
  then have "last (w # ws) \<in> set xs" "k \<in> set (written_keys (snd (last (w # ws))))"
    by simp_all
  moreover from build_index_lookup [OF assms(1), of k] assms(2) Cons
  have "i = fst (last (w # ws))" by simp
  ultimately show ?thesis by blast
qed

lemma build_index_keys_normal:
  assumes "build_index Map.empty xs = Inr m" and "k \<in> dom m"
  shows "trimmed k \<and> lower k = k"
proof -
  from assms(2) obtain i where "m k = Some i" by blast
  from build_index_dom [OF assms(1) this] obtain r where "k \<in> set (written_keys (snd r))"
    by auto
  then show ?thesis by (rule written_keys_normal)
qed

lemma trimmed_lower_normalized: "trimmed x \<Longrightarrow> lower x = normalized x"
  by (metis lower_strip normalized_def trimmed_fix)

text \<open>
  C10. The two loops are the only code that changes the index and the name sets, so
  the state after every operation is the state after a prefix of the records and a
  prefix of the rows. After any prefix that is processed without an exception: every key
  of the index is trimmed and lower-cased, so it is its own normal form; every name
  seen is trimmed, so the key that the scan looks up for it, its lower-cased form, is
  its normal form, computed as the index computes its keys; and the unmapped names are
  among the names seen, so they are trimmed as well.
\<close>

theorem normalisation_invariants:
  assumes "build_index Map.empty (take i exercises_data) = Inr name_to_id"
    and "scan_rows idx init_state (take j (dict_reader f)) = Inr st"
  shows "(\<forall>k\<in>dom name_to_id. trimmed k \<and> lower k = k \<and> normalized k = k)
         \<and> (\<forall>x\<in>csv_exercises st. trimmed x \<and> lower x = normalized x)
         \<and> unmapped_exercises st \<subseteq> csv_exercises st"
proof -
  have a: "trimmed k \<and> lower k = k \<and> normalized k = k" if "k \<in> dom name_to_id" for k
  proof -
    from build_index_keys_normal [OF assms(1) that] have "trimmed k" "lower k = k"
      by simp_all
    then show ?thesis by (simp add: normalized_def trimmed_fix)
  qed
  have t: "\<forall>x\<in>csv_exercises st. trimmed x"
    using scan_rows_trimmed [OF assms(2)] by (simp add: init_state_def)
  have u: "unmapped_exercises st = {x \<in> csv_exercises st. idx (lower x) = None}"
    using scan_rows_unmapped [OF assms(2)] by (simp add: init_state_def)
  have s: "unmapped_exercises st \<subseteq> csv_exercises st"
    by (subst u) (rule Collect_restrict)
  from a t s show ?thesis
    by (simp add: trimmed_lower_normalized)
qed

theorem normalisation_invariants_witness:
  "build_index Map.empty (take 2 example_exercises)
     = Inr [''press'' \<mapsto> ''2'', ''bench press'' \<mapsto> ''2'']
   \<and> scan_rows example_index init_state (take 3 (dict_reader example_csv)) = Inr example_state
   \<and> trimmed ''bench press'' \<and> lower ''bench press'' = ''bench press''
   \<and> normalized ''press'' = ''press''
   \<and> trimmed ''Back Squat'' \<and> lower ''Back Squat'' = normalized ''Back Squat''
   \<and> {''Deadlift''} \<subseteq> {''Back Squat'', ''Deadlift'', ''bench press''}"
proof -
  have h1: "build_index Map.empty (take 2 example_exercises)
     = Inr [''press'' \<mapsto> ''2'', ''bench press'' \<mapsto> ''2'']"
    by (simp add: example_exercises_def index_record_def Let_def string_eval)
  have "take 3 (dict_reader example_csv) = dict_reader example_csv"
    by (simp add: dict_reader_def example_csv_def)
  with scan_example
  have h2: "scan_rows example_index init_state (take 3 (dict_reader example_csv))
     = Inr example_state"
    by (simp add: scan_csv_def)
  have d: "dom [''press'' \<mapsto> ''2'', ''bench press'' \<mapsto> ''2''] = {''press'', ''bench press''}"
    by auto
  have e: "csv_exercises example_state = {''Back Squat'', ''Deadlift'', ''bench press''}"
    "unmapped_exercises example_state = {''Deadlift''}"
    by (simp_all add: example_state_def)
  show ?thesis
    using h1 h2 normalisation_invariants [OF h1 h2, unfolded d e]
    by blast
qed

section \<open>Export names\<close>

text \<open>
  One pass of the loop body for an exercise object with a name and an export name, both
  strings: it writes the key of the export name besides the key of the name exactly when
  the export name is not empty and the two keys differ.
\<close>

lemma index_record_alias:
  assumes "data ''name'' = Some (JStr n)" and "data ''exportName'' = Some (JStr e)"
  shows "index_record name_to_id (ex_id, data)
         = Inr (if e \<noteq> [] \<and> normalized e \<noteq> normalized n
                then name_to_id(normalized n \<mapsto> ex_id, normalized e \<mapsto> ex_id)
                else name_to_id(normalized n \<mapsto> ex_id))"
proof (cases "e \<noteq> [] \<and> lower e \<noteq> strip (lower n)")
  case True
  with assms have "index_record name_to_id (ex_id, data)
      = Inr (name_to_id(normalized n \<mapsto> ex_id, normalized e \<mapsto> ex_id))"
    by (simp add: index_record_def Let_def normalized_def)
  with True show ?thesis by auto
next
  case False
  with assms have r: "index_record name_to_id (ex_id, data)
      = Inr (name_to_id(normalized n \<mapsto> ex_id))"
    by (auto simp add: index_record_def Let_def normalized_def)
  from False normalized_alias_differs [of e n]
  have "\<not> (e \<noteq> [] \<and> normalized e \<noteq> normalized n)"
    by blast
  with r show ?thesis by auto
qed










section \<open>The report\<close>

text \<open>
  The output of a run whose loader and scan complete: the whole report when some name
  was seen, and the report up to line 81 when none was.
\<close>

lemma main_completes:
  assumes "load_index exercises_data = Inr name_to_id"
    and "scan_csv name_to_id f = Inr st"
    and "csv_exercises st \<noteq> {}"
  shows "main exercises_data f
         = ([Title, LoadingJson, LoadedCount (length exercises_data), ReadingCsv]
            @ report_counts st
            @ report_unmapped st
            @ [SummaryHeader, TotalExercises (card (csv_exercises st)),
               SuccessfullyMapped (mapped_count st) (card (csv_exercises st)),
               MissingMappings (card (unmapped_exercises st)) (card (csv_exercises st)),
               TotalDates (card (dom (csv_workouts st)))]
            @ report_sample name_to_id st
            @ report_next_steps st, None)"
proof -
  have "card (csv_exercises st) \<noteq> 0"
    using scan_csv_finite(1) [OF assms(2)] assms(3) by simp
  then show ?thesis
    by (simp add: main_def assms(1,2) report_def Let_def)
qed

lemma main_stops:
  assumes "load_index exercises_data = Inr name_to_id"
    and "scan_csv name_to_id f = Inr st"
    and "csv_exercises st = {}"
  shows "main exercises_data f
         = ([Title, LoadingJson, LoadedCount (length exercises_data), ReadingCsv]
            @ report_counts st
            @ report_unmapped st
            @ [SummaryHeader, TotalExercises 0], Some ZeroDivisionError)"
  by (simp add: main_def assms report_def Let_def)

text \<open>Sample lines are printed by lines 90 to 92 only, for names that are mapped.\<close>

lemma sample_not_elsewhere:
  "SampleEntry ex r \<notin> set (report_counts st)"
  "SampleEntry ex r \<notin> set (report_unmapped st)"
  "SampleEntry ex r \<notin> set (report_next_steps st)"
  by (auto simp add: report_counts_def report_unmapped_def report_next_steps_def)

lemma sample_entry_source:
  assumes "SampleEntry ex r \<in> set (report_sample name_to_id st)"
    and "finite (csv_exercises st)"
  shows "ex \<in> csv_exercises st - unmapped_exercises st \<and> r = name_to_id (lower ex)"
proof -
  from assms(1) have "SampleEntry ex r
      \<in> (\<lambda>ex. SampleEntry ex (name_to_id (lower ex)))
          ` set (take 10 (sorted_list_of_set (csv_exercises st - unmapped_exercises st)))"
    by (simp add: report_sample_def split: if_splits)
  then have "ex \<in> set (take 10 (sorted_list_of_set (csv_exercises st - unmapped_exercises st)))"
    and r: "r = name_to_id (lower ex)"
    by auto
  then have "ex \<in> set (sorted_list_of_set (csv_exercises st - unmapped_exercises st))"
    by (auto dest: in_set_takeD)
  with assms(2) r show ?thesis by simp
qed

lemma main_sample_entry:
  assumes "load_index exercises_data = Inr name_to_id"
    and "scan_csv name_to_id f = Inr st"
    and "SampleEntry ex r \<in> set (fst (main exercises_data f))"
  shows "SampleEntry ex r \<in> set (report_sample name_to_id st)"
proof (cases "csv_exercises st = {}")
  case True
  from assms(3) show ?thesis
    by (simp add: main_stops [OF assms(1,2) True] sample_not_elsewhere)
next
  case False
  from assms(3) show ?thesis
    by (simp add: main_completes [OF assms(1,2) False] sample_not_elsewhere)
qed

lemma scan_csv_unmapped_iff:
  assumes "scan_csv idx f = Inr st"
  shows "x \<in> unmapped_exercises st \<longleftrightarrow> x \<in> csv_exercises st \<and> idx (lower x) = None"
  by (subst scan_csv_unmapped [OF assms]) (rule mem_Collect_eq)

text \<open>
  C9. After a scan that completes, the lower-cased form of every mapped name (seen and
  not unmapped) has an entry in the index, and the entry is the id of a record of the
  mapping file. Hence every sample line of the output shows such an id and never the
  absent result.
\<close>

theorem mapped_names_resolve:
  assumes "load_index exercises_data = Inr name_to_id"
    and "scan_csv name_to_id f = Inr st"
  shows "(\<forall>ex\<in>csv_exercises st - unmapped_exercises st.
            \<exists>i. name_to_id (lower ex) = Some i \<and> i \<in> fst ` set exercises_data)
         \<and> (\<forall>ex r. SampleEntry ex r \<in> set (fst (main exercises_data f))
              \<longrightarrow> (\<exists>i. r = Some i \<and> i \<in> fst ` set exercises_data))"
proof -
  have a: "\<exists>i. name_to_id (lower ex) = Some i \<and> i \<in> fst ` set exercises_data"
    if "ex \<in> csv_exercises st - unmapped_exercises st" for ex
  proof -
    from that have "ex \<in> csv_exercises st" "ex \<notin> unmapped_exercises st"
      by simp_all
    then have "name_to_id (lower ex) \<noteq> None"
      by (simp add: scan_csv_unmapped_iff [OF assms(2)])
    then obtain i where i: "name_to_id (lower ex) = Some i" by blast
    from build_index_dom [OF assms(1) [unfolded load_index_def] i]
    have "i \<in> fst ` set exercises_data" by auto
    with i show ?thesis by blast
  qed
  have b: "\<exists>i. r = Some i \<and> i \<in> fst ` set exercises_data"
    if "SampleEntry ex r \<in> set (fst (main exercises_data f))" for ex r
  proof -
    from main_sample_entry [OF assms that]
    have "SampleEntry ex r \<in> set (report_sample name_to_id st)" .
    from sample_entry_source [OF this scan_csv_finite(1) [OF assms(2)]]
    have "ex \<in> csv_exercises st - unmapped_exercises st" "r = name_to_id (lower ex)"
      by simp_all
    with a [of ex] show ?thesis by simp
  qed
  show ?thesis
  proof (intro conjI ballI allI impI)
    fix ex assume "ex \<in> csv_exercises st - unmapped_exercises st"
    then show "\<exists>i. name_to_id (lower ex) = Some i \<and> i \<in> fst ` set exercises_data"
      by (rule a)
  next
    fix ex r assume "SampleEntry ex r \<in> set (fst (main exercises_data f))"
    then show "\<exists>i. r = Some i \<and> i \<in> fst ` set exercises_data"
      by (rule b)
  qed
qed


theorem mapped_names_resolve_witness:
  "load_index example_exercises = Inr example_index
   \<and> scan_csv example_index example_csv = Inr example_state
   \<and> csv_exercises example_state - unmapped_exercises example_state
       = {''Back Squat'', ''bench press''}
   \<and> example_index (lower ''Back Squat'') = Some ''3''
   \<and> example_index (lower ''bench press'') = Some ''2''
   \<and> SampleEntry ''Back Squat'' (Some ''3'') \<in> set (fst (main example_exercises example_csv))
   \<and> SampleEntry ''bench press'' (Some ''2'') \<in> set (fst (main example_exercises example_csv))"
proof -
  have d: "csv_exercises example_state - unmapped_exercises example_state
       = {''Back Squat'', ''bench press''}"
    by (auto simp add: example_state_def)
  have l: "example_index (lower ''Back Squat'') = Some ''3''"
    "example_index (lower ''bench press'') = Some ''2''"
    by (simp_all add: example_index_def string_eval)
  have ne: "csv_exercises example_state \<noteq> {}"
    by (simp add: example_state_def)
  have m: "mapped_count example_state = 2"
    by (simp add: mapped_count_def example_state_def)
  have s: "report_sample example_index example_state
      = [SampleHeader, SampleEntry ''Back Squat'' (Some ''3''),
         SampleEntry ''bench press'' (Some ''2'')]"
    by (simp add: report_sample_def d m l)
  have o: "SampleEntry ''Back Squat'' (Some ''3'') \<in> set (fst (main example_exercises example_csv))"
    "SampleEntry ''bench press'' (Some ''2'') \<in> set (fst (main example_exercises example_csv))"
    by (simp_all add: main_completes [OF load_example scan_example ne] s)
  show ?thesis
    using load_example scan_example d l o mapped_names_resolve [OF load_example scan_example]
    by blast
qed

section \<open>The list of unmapped names\<close>

text \<open>
  The first 20 elements of a finite set in ascending order: a sorted list without
  repetition of 20 elements of the set, or of all when there are fewer, below every
  element that is left out.
\<close>

lemma first_twenty:
  fixes A :: "'a::linorder set"
  assumes "finite A"
  defines "listed \<equiv> take 20 (sorted_list_of_set A)"
  shows "sorted listed" and "distinct listed" and "set listed \<subseteq> A"
    and "length listed = min 20 (card A)"
    and "\<forall>x\<in>A - set listed. \<forall>y\<in>set listed. y < x"
proof -
  let ?s = "sorted_list_of_set A"
  show "sorted listed"
    unfolding listed_def by (simp add: sorted_wrt_take)
  show "distinct listed"
    unfolding listed_def by simp
  show "set listed \<subseteq> A"
    unfolding listed_def using assms(1) set_take_subset [of 20 ?s] by simp
  show "length listed = min 20 (card A)"
    unfolding listed_def by (simp add: min.commute)
  show "\<forall>x\<in>A - set listed. \<forall>y\<in>set listed. y < x"
  proof (intro ballI)
    fix x y
    assume x: "x \<in> A - set listed" and y: "y \<in> set listed"
    have "sorted (take 20 ?s @ drop 20 ?s)" by simp
    then have le: "\<forall>a\<in>set (take 20 ?s). \<forall>b\<in>set (drop 20 ?s). a \<le> b"
      unfolding sorted_append by blast
    from x assms(1) have "x \<in> set (take 20 ?s @ drop 20 ?s)" by simp
    with x have "x \<in> set (drop 20 ?s)"
      unfolding listed_def set_append by blast
    with le y have "y \<le> x" unfolding listed_def by blast
    moreover from x y have "y \<noteq> x" by blast
    ultimately show "y < x" by simp
  qed
qed

text \<open>
  C5. When some name is unmapped, the report prints after the counts one warning line,
  then one line for each name of a list, then the truncation notice when there are more
  than 20 unmapped names, carrying their number less 20, and no notice otherwise. The
  list holds the first 20 unmapped names (all of them when there are at most 20) in
  ascending order. The order on strings is the lexicographic order on the code points
  of their characters, so the letters \<^verbatim>\<open>A-Z\<close> come before the letters \<^verbatim>\<open>a-z\<close>.
  For 25 unmapped names that is 20 lines and the notice with the number 5.
\<close>

theorem unmapped_listing:
  assumes "load_index exercises_data = Inr name_to_id"
    and "scan_csv name_to_id f = Inr st"
    and "unmapped_exercises st \<noteq> {}"
  shows "\<exists>listed.
           sorted listed \<and> distinct listed \<and> set listed \<subseteq> unmapped_exercises st
           \<and> length listed = min 20 (card (unmapped_exercises st))
           \<and> (\<forall>x\<in>unmapped_exercises st - set listed. \<forall>y\<in>set listed. y < x)
           \<and> report_unmapped st
               = Warning (card (unmapped_exercises st))
                 # map UnmappedEntry listed
                 @ (if 20 < card (unmapped_exercises st)
                    then [AndMore (card (unmapped_exercises st) - 20)] else [])
           \<and> fst (main exercises_data f)
               = [Title, LoadingJson, LoadedCount (length exercises_data), ReadingCsv]
                 @ report_counts st
                 @ report_unmapped st
                 @ [SummaryHeader, TotalExercises (card (csv_exercises st)),
                    SuccessfullyMapped (mapped_count st) (card (csv_exercises st)),
                    MissingMappings (card (unmapped_exercises st)) (card (csv_exercises st)),
                    TotalDates (card (dom (csv_workouts st)))]
                 @ report_sample name_to_id st
                 @ report_next_steps st"
proof -
  have sub: "unmapped_exercises st \<subseteq> csv_exercises st"
    by (subst scan_csv_unmapped [OF assms(2)]) (rule Collect_restrict)
  with assms(3) have ne: "csv_exercises st \<noteq> {}" by blast
  have fin: "finite (unmapped_exercises st)"
    using sub scan_csv_finite(1) [OF assms(2)] by (rule finite_subset)
  let ?listed = "take 20 (sorted_list_of_set (unmapped_exercises st))"
  have r: "report_unmapped st
      = Warning (card (unmapped_exercises st))
        # map UnmappedEntry ?listed
        @ (if 20 < card (unmapped_exercises st)
           then [AndMore (card (unmapped_exercises st) - 20)] else [])"
    using assms(3) by (simp add: report_unmapped_def)
  have m: "fst (main exercises_data f)
      = [Title, LoadingJson, LoadedCount (length exercises_data), ReadingCsv]
        @ report_counts st
        @ report_unmapped st
        @ [SummaryHeader, TotalExercises (card (csv_exercises st)),
           SuccessfullyMapped (mapped_count st) (card (csv_exercises st)),
           MissingMappings (card (unmapped_exercises st)) (card (csv_exercises st)),
           TotalDates (card (dom (csv_workouts st)))]
        @ report_sample name_to_id st
        @ report_next_steps st"
    by (simp only: main_completes [OF assms(1,2) ne] fst_conv)
  from first_twenty [OF fin] r m show ?thesis
    by (intro exI [of _ ?listed] conjI)
qed

lemma load_empty: "load_index [] = Inr Map.empty"
  by (simp add: load_index_def)

lemma scan25: "scan_csv Map.empty csv25 = Inr state25"
  by (simp add: scan_csv_def dict_reader_def dict_row_def csv25_def names25_def state25_def
      scan_row_def init_state_def Let_def strip_def is_space_def insert_commute)

lemma card25: "card (set names25) = 25"
  by (simp add: names25_def)

lemma sorted25:
  "take 20 (sorted_list_of_set (set names25))
   = [''Abs'', ''Bike'', ''Curl'', ''Dip'', ''Lunge'', ''Plank'', ''Press'', ''Pull'',
      ''Push'', ''Row'', ''Squat'', ''Step'', ''Swing'', ''Thrust'', ''Twist'', ''Walk'',
      ''Yoga'', ''burpee'', ''crunch'', ''deadlift'']"
  by (simp add: names25_def)

theorem unmapped_listing_witness:
  "load_index [] = Inr Map.empty
   \<and> scan_csv Map.empty csv25 = Inr state25
   \<and> unmapped_exercises state25 \<noteq> {}
   \<and> card (unmapped_exercises state25) = 25
   \<and> report_unmapped state25
       = [Warning 25,
          UnmappedEntry ''Abs'', UnmappedEntry ''Bike'', UnmappedEntry ''Curl'',
          UnmappedEntry ''Dip'', UnmappedEntry ''Lunge'', UnmappedEntry ''Plank'',
          UnmappedEntry ''Press'', UnmappedEntry ''Pull'', UnmappedEntry ''Push'',
          UnmappedEntry ''Row'', UnmappedEntry ''Squat'', UnmappedEntry ''Step'',
          UnmappedEntry ''Swing'', UnmappedEntry ''Thrust'', UnmappedEntry ''Twist'',
          UnmappedEntry ''Walk'', UnmappedEntry ''Yoga'', UnmappedEntry ''burpee'',
          UnmappedEntry ''crunch'', UnmappedEntry ''deadlift'',
          AndMore 5]
   \<and> (\<exists>listed. sorted listed \<and> distinct listed \<and> length listed = 20
         \<and> report_unmapped state25 = Warning 25 # map UnmappedEntry listed @ [AndMore 5])"
proof -
  have u: "unmapped_exercises state25 = set names25"
    by (simp add: state25_def)
  have h3: "unmapped_exercises state25 \<noteq> {}"
    by (simp add: u names25_def)
  have c: "card (unmapped_exercises state25) = 25"
    by (simp add: u card25)
  have r: "report_unmapped state25
       = [Warning 25,
          UnmappedEntry ''Abs'', UnmappedEntry ''Bike'', UnmappedEntry ''Curl'',
          UnmappedEntry ''Dip'', UnmappedEntry ''Lunge'', UnmappedEntry ''Plank'',
          UnmappedEntry ''Press'', UnmappedEntry ''Pull'', UnmappedEntry ''Push'',
          UnmappedEntry ''Row'', UnmappedEntry ''Squat'', UnmappedEntry ''Step'',
          UnmappedEntry ''Swing'', UnmappedEntry ''Thrust'', UnmappedEntry ''Twist'',
          UnmappedEntry ''Walk'', UnmappedEntry ''Yoga'', UnmappedEntry ''burpee'',
          UnmappedEntry ''crunch'', UnmappedEntry ''deadlift'',
          AndMore 5]"
    using h3 by (simp add: report_unmapped_def c) (simp add: u sorted25)
  from unmapped_listing [OF load_empty scan25 h3]
  have "\<exists>listed. sorted listed \<and> distinct listed \<and> length listed = 20
         \<and> report_unmapped state25 = Warning 25 # map UnmappedEntry listed @ [AndMore 5]"
    unfolding c by auto
  with load_empty scan25 h3 c r show ?thesis
    by (intro conjI)
qed

section \<open>Two spellings of one exercise\<close>

lemma bench_strings:
  "strip (lower ''Bench Press'') = ''bench press''"
  "strip ''bench press'' = ''bench press''"
  "strip ''Bench Press'' = ''Bench Press''"
  "lower ''bench press'' = ''bench press''"
  "lower ''Bench Press'' = ''bench press''"
  by (simp_all add: string_eval)

lemma load_bench: "load_index bench_exercises = Inr [''bench press'' \<mapsto> ''1'']"
  by (simp add: load_index_def bench_exercises_def index_record_def bench_strings)

lemma length_bench: "length bench_exercises = 1"
  by (simp add: bench_exercises_def)

lemma scan_bench:
  "\<exists>w. scan_csv [''bench press'' \<mapsto> ''1''] (bench_csv d1 d2 a b)
         = Inr \<lparr>csv_exercises = {''Bench Press'', ''bench press''}, csv_workouts = w,
                unmapped_exercises = {}\<rparr>
       \<and> dom w = {strip d1, strip d2}"
  by (simp add: scan_csv_def dict_reader_def dict_row_def bench_csv_def scan_row_def
      init_state_def Let_def bench_strings insert_commute)

text \<open>
  C1, as amended. With the one exercise \<^verbatim>\<open>Bench Press\<close> in the mapping file and one row
  for \<^verbatim>\<open>bench press\<close> and one for \<^verbatim>\<open>Bench Press\<close>, on dates that differ after trimming,
  the scan keeps both spellings: two names seen, none unmapped, two dates. The report
  counts two unique exercises, both mapped to the id of the one exercise.
\<close>

theorem two_spellings_two_exercises:
  assumes "strip d1 \<noteq> strip d2"
  shows "map_sum id set_sizes (scan_csv [''bench press'' \<mapsto> ''1''] (bench_csv d1 d2 a b))
           = Inr (2, 0, 2)
         \<and> main bench_exercises (bench_csv d1 d2 a b)
           = ([Title, LoadingJson, LoadedCount 1, ReadingCsv,
               FoundExercises 2, FoundDates 2, MappingHeader, MappedOf 2 2, UnmappedOf 0 2,
               AllMapped, SummaryHeader, TotalExercises 2,
               SuccessfullyMapped 2 2, MissingMappings 0 2, TotalDates 2,
               SampleHeader, SampleEntry ''Bench Press'' (Some ''1''),
               SampleEntry ''bench press'' (Some ''1''),
               NextStepsHeader, ReadyForFirebase], None)"
proof -
  from scan_bench [of d1 d2 a b] obtain w where
    s: "scan_csv [''bench press'' \<mapsto> ''1''] (bench_csv d1 d2 a b)
         = Inr \<lparr>csv_exercises = {''Bench Press'', ''bench press''}, csv_workouts = w,
                unmapped_exercises = {}\<rparr>"
    and w: "dom w = {strip d1, strip d2}"
    by blast
  have x: "map_sum id set_sizes (scan_csv [''bench press'' \<mapsto> ''1''] (bench_csv d1 d2 a b))
      = Inr (2, 0, 2)"
    using assms by (simp add: s w set_sizes_def)
  have y: "main bench_exercises (bench_csv d1 d2 a b)
      = ([Title, LoadingJson, LoadedCount 1, ReadingCsv,
          FoundExercises 2, FoundDates 2, MappingHeader, MappedOf 2 2, UnmappedOf 0 2,
          AllMapped, SummaryHeader, TotalExercises 2,
          SuccessfullyMapped 2 2, MissingMappings 0 2, TotalDates 2,
          SampleHeader, SampleEntry ''Bench Press'' (Some ''1''),
          SampleEntry ''bench press'' (Some ''1''),
          NextStepsHeader, ReadyForFirebase], None)"
    using assms
    by (simp add: main_def load_bench s w report_def report_counts_def
        report_unmapped_def report_sample_def report_next_steps_def mapped_count_def
        bench_strings length_bench)
  from x y show ?thesis by (rule conjI)
qed

theorem two_spellings_two_exercises_witness:
  "strip ''2024-01-01'' \<noteq> strip ''2024-01-02''
   \<and> map_sum id set_sizes
        (scan_csv [''bench press'' \<mapsto> ''1'']
           (bench_csv ''2024-01-01'' ''2024-01-02'' (''5'', ''60'', ''false'')
              (''3'', ''62.5'', ''false'')))
       = Inr (2, 0, 2)
   \<and> MappedOf 2 2
       \<in> set (fst (main bench_exercises
                      (bench_csv ''2024-01-01'' ''2024-01-02'' (''5'', ''60'', ''false'')
                         (''3'', ''62.5'', ''false''))))"
proof -
  have h: "strip ''2024-01-01'' \<noteq> strip ''2024-01-02''"
    by (simp add: string_eval)
  show ?thesis
    using h two_spellings_two_exercises [OF h]
    by simp
qed

text \<open>
  C1 as stated fails: on such a file the three sizes are 2, 0 and 2, not 1, 0 and 2, and
  the fifth line of the output reports two unique exercises.
\<close>

theorem one_exercise_counterexample:
  "load_index bench_exercises = Inr [''bench press'' \<mapsto> ''1'']
   \<and> map_sum id set_sizes
        (scan_csv [''bench press'' \<mapsto> ''1'']
           (bench_csv ''2024-01-01'' ''2024-01-02'' (''5'', ''60'', ''false'')
              (''3'', ''62.5'', ''false'')))
       = Inr (2, 0, 2)
   \<and> take 2 (drop 4 (fst (main bench_exercises
                              (bench_csv ''2024-01-01'' ''2024-01-02'' (''5'', ''60'', ''false'')
                                 (''3'', ''62.5'', ''false'')))))
       = [FoundExercises 2, FoundDates 2]"
proof -
  let ?f = "bench_csv ''2024-01-01'' ''2024-01-02'' (''5'', ''60'', ''false'')
              (''3'', ''62.5'', ''false'')"
  have d: "strip ''2024-01-01'' = ''2024-01-01''" "strip ''2024-01-02'' = ''2024-01-02''"
    by (simp_all add: string_eval)
  have s: "map_sum id set_sizes (scan_csv [''bench press'' \<mapsto> ''1''] ?f) = Inr (2, 0, 2)"
    by (simp add: scan_csv_def dict_reader_def dict_row_def bench_csv_def scan_row_def
        init_state_def Let_def bench_strings d set_sizes_def)
  have "\<exists>st. scan_csv [''bench press'' \<mapsto> ''1''] ?f = Inr st
         \<and> card (csv_exercises st) = 2 \<and> card (dom (csv_workouts st)) = 2"
    by (simp add: scan_csv_def dict_reader_def dict_row_def bench_csv_def scan_row_def
        init_state_def Let_def bench_strings d)
  then obtain st where st: "scan_csv [''bench press'' \<mapsto> ''1''] ?f = Inr st"
    and c: "card (csv_exercises st) = 2" "card (dom (csv_workouts st)) = 2"
    by blast
  have m: "take 2 (drop 4 (fst (main bench_exercises ?f))) = [FoundExercises 2, FoundDates 2]"
    by (simp add: main_def load_bench st report_def report_counts_def c Let_def)
  from load_bench s m show ?thesis by (intro conjI)
qed

end
